theory Spec2Isabelle
  imports Complex_Main
begin

section \<open>Numeric model\<close>

text \<open>
  The renderer computes in C++ \<open>float\<close>. The embedding reads every \<open>float\<close> as a
  real number: arithmetic is exact, and rounding, overflow to infinity and NaN are not
  represented. \<open>int\<close> values are mathematical integers; the only integer arithmetic of
  the rasterizer is the index \<open>y * SCREEN_WIDTH + x\<close>, which stays far below the range
  of a 32-bit \<open>int\<close> for the 160 x 90 grid.

  \<open>static_cast<int>(f)\<close> truncates toward zero; \<open>std::ceil\<close> returns the least
  integral value not below its argument, still as a floating value.
\<close>

definition static_cast_int :: "real \<Rightarrow> int" where
  "static_cast_int f = (if 0 \<le> f then \<lfloor>f\<rfloor> else \<lceil>f\<rceil>)"

definition std_ceil :: "real \<Rightarrow> real" where
  "std_ceil f = of_int \<lceil>f\<rceil>"

section \<open>Math library\<close>

text \<open>
  \<open>struct Vec3 { float x, y, z; }\<close>. The fields are named \<open>vx\<close>, \<open>vy\<close>, \<open>vz\<close>
  here so that they do not capture the variables \<open>x\<close>, \<open>y\<close>, \<open>z\<close>.
\<close>

record Vec3 =
  vx :: real
  vy :: real
  vz :: real

definition Vec3_add :: "Vec3 \<Rightarrow> Vec3 \<Rightarrow> Vec3" where
  "Vec3_add a b = \<lparr>vx = vx a + vx b, vy = vy a + vy b, vz = vz a + vz b\<rparr>"

definition Vec3_subtract :: "Vec3 \<Rightarrow> Vec3 \<Rightarrow> Vec3" where
  "Vec3_subtract a b = \<lparr>vx = vx a - vx b, vy = vy a - vy b, vz = vz a - vz b\<rparr>"

definition Vec3_scale :: "Vec3 \<Rightarrow> real \<Rightarrow> Vec3" where
  "Vec3_scale v s = \<lparr>vx = vx v * s, vy = vy v * s, vz = vz v * s\<rparr>"

definition Vec3_dot :: "Vec3 \<Rightarrow> Vec3 \<Rightarrow> real" where
  "Vec3_dot a b = vx a * vx b + vy a * vy b + vz a * vz b"

definition Vec3_cross :: "Vec3 \<Rightarrow> Vec3 \<Rightarrow> Vec3" where
  "Vec3_cross a b =
     \<lparr>vx = vy a * vz b - vz a * vy b,
      vy = vz a * vx b - vx a * vz b,
      vz = vx a * vy b - vy a * vx b\<rparr>"

definition Vec3_length :: "Vec3 \<Rightarrow> real" where
  "Vec3_length v = sqrt (Vec3_dot v v)"

definition Vec3_zero :: Vec3 where
  "Vec3_zero = \<lparr>vx = 0, vy = 0, vz = 0\<rparr>"

text \<open>
  \<open>Vec3::normalize\<close>: the quotient \<open>1.0f / len\<close> is formed only in the branch
  \<open>len > 0\<close>; the other branch returns \<open>Vec3{0, 0, 0}\<close>.

  Here the length is the square root of an exact dot product. In the \<open>float\<close> code
  \<open>dot(v, v)\<close> underflows to 0 for vectors shorter than about \<open>2.6e-23\<close> and
  overflows to infinity for vectors longer than about \<open>1.8e19\<close>; there the code
  returns the zero vector, and just above the underflow bound a vector whose length is
  not near 1. None of this is represented: what normalization returns for very short
  and very long vectors, and how close to 1 the length of the result is, are not
  statements of this theory. The facts below about \<open>Vec3_normalize\<close> are facts of
  exact arithmetic and serve the sign of the cull test only.
\<close>

definition Vec3_normalize :: "Vec3 \<Rightarrow> Vec3" where
  "Vec3_normalize v =
     (let len = Vec3_length v
      in if len > 0 then Vec3_scale v (1 / len) else Vec3_zero)"

text \<open>\<open>struct Vec4 { float x, y, z, w; }\<close>, with fields \<open>cx\<close>, \<open>cy\<close>, \<open>cz\<close>, \<open>cw\<close>.\<close>

record Vec4 =
  cx :: real
  cy :: real
  cz :: real
  cw :: real

text \<open>
  \<open>struct Mat4 { float m[16]; }\<close> in column-major order: the array is a list of 16
  reals and \<open>m[i]\<close> is \<open>m ! i\<close>.
\<close>

type_synonym Mat4 = "real list"

definition Mat4_identity :: Mat4 where
  "Mat4_identity = [1, 0, 0, 0,  0, 1, 0, 0,  0, 0, 1, 0,  0, 0, 0, 1]"

definition Mat4_transform :: "Mat4 \<Rightarrow> Vec4 \<Rightarrow> Vec4" where
  "Mat4_transform m v =
     \<lparr>cx = m ! 0 * cx v + m ! 4 * cy v + m ! 8 * cz v + m ! 12 * cw v,
      cy = m ! 1 * cx v + m ! 5 * cy v + m ! 9 * cz v + m ! 13 * cw v,
      cz = m ! 2 * cx v + m ! 6 * cy v + m ! 10 * cz v + m ! 14 * cw v,
      cw = m ! 3 * cx v + m ! 7 * cy v + m ! 11 * cz v + m ! 15 * cw v\<rparr>"

section \<open>Helper functions\<close>

definition ascii_chars :: string where
  "ascii_chars = '' .:-=+*#%@''"

text \<open>
  \<open>get_ascii_char\<close>: the product with \<open>ascii_chars.length() - 1\<close> is converted by
  \<open>static_cast<int>\<close>, then clamped by \<open>std::max(0, std::min(length - 1, index))\<close>.
\<close>

definition get_ascii_char :: "real \<Rightarrow> char" where
  "get_ascii_char intensity =
     (let index = static_cast_int (intensity * real (length ascii_chars - 1));
          index = max 0 (min (int (length ascii_chars - 1)) index)
      in ascii_chars ! nat index)"

text \<open>
  The index rule in the words of the specification, for comparison with the code:
  \<open>index = round(intensity * (rampLength - 1))\<close>, clamped to the valid index range.
\<close>

definition spec_rounded_glyph :: "real \<Rightarrow> char" where
  "spec_rounded_glyph intensity =
     (let index = round (intensity * real (length ascii_chars - 1));
          index = max 0 (min (int (length ascii_chars - 1)) index)
      in ascii_chars ! nat index)"

definition barycentric :: "Vec3 \<Rightarrow> Vec3 \<Rightarrow> Vec3 \<Rightarrow> Vec3 \<Rightarrow> Vec3" where
  "barycentric p a b c =
     (let v0 = Vec3_subtract b a;
          v1 = Vec3_subtract c a;
          v2 = Vec3_subtract p a;
          d00 = Vec3_dot v0 v0;
          d01 = Vec3_dot v0 v1;
          d11 = Vec3_dot v1 v1;
          d20 = Vec3_dot v2 v0;
          d21 = Vec3_dot v2 v1;
          denom = d00 * d11 - d01 * d01
      in if \<bar>denom\<bar> < 1 / 100000 then \<lparr>vx = - 1, vy = - 1, vz = - 1\<rparr>
         else
           (let v = (d11 * d20 - d01 * d21) / denom;
                w = (d00 * d21 - d01 * d20) / denom;
                u = 1 - v - w
            in \<lparr>vx = u, vy = v, vz = w\<rparr>))"

text \<open>The local \<open>denom\<close> of \<open>barycentric\<close>; it does not depend on the query point.\<close>

definition barycentric_denom :: "Vec3 \<Rightarrow> Vec3 \<Rightarrow> Vec3 \<Rightarrow> real" where
  "barycentric_denom a b c =
     (let v0 = Vec3_subtract b a;
          v1 = Vec3_subtract c a;
          d00 = Vec3_dot v0 v0;
          d01 = Vec3_dot v0 v1;
          d11 = Vec3_dot v1 v1
      in d00 * d11 - d01 * d01)"

section \<open>Frame buffer\<close>

text \<open>
  \<open>depth_buffer\<close> and \<open>char_buffer\<close>, the two vectors of \<open>SCREEN_WIDTH * SCREEN_HEIGHT\<close>
  cells of \<open>main\<close>. The cell of column \<open>x\<close> and row \<open>y\<close> is at index
  \<open>y * SCREEN_WIDTH + x\<close>.
\<close>

record frame =
  depth_buffer :: "real list"
  char_buffer :: "char list"

text \<open>The two \<open>std::fill\<close> calls at the start of a frame.\<close>

definition clear_buffers :: "int \<Rightarrow> int \<Rightarrow> frame" where
  "clear_buffers W H =
     \<lparr>depth_buffer = replicate (nat (W * H)) 0,
      char_buffer = replicate (nat (W * H)) CHR '' ''\<rparr>"

definition SCREEN_WIDTH :: int where
  "SCREEN_WIDTH = 160"

definition SCREEN_HEIGHT :: int where
  "SCREEN_HEIGHT = 90"

definition camera_pos :: Vec3 where
  "camera_pos = \<lparr>vx = 0, vy = 2, vz = - 5\<rparr>"

definition light_direction :: Vec3 where
  "light_direction = Vec3_normalize \<lparr>vx = 1 / 2, vy = - 1, vz = - 1\<rparr>"

section \<open>Rasterizer\<close>

text \<open>
  The body of the render loop for one triangle \<open>v_world[0..2]\<close>. The screen size, the
  camera position, the light direction and the model-view-projection matrix are
  parameters; \<open>main\<close> runs it with \<open>SCREEN_WIDTH\<close>, \<open>SCREEN_HEIGHT\<close>, \<open>camera_pos\<close>,
  \<open>light_direction\<close> and the matrix of the current frame.
\<close>

type_synonym triangle = "Vec3 \<times> Vec3 \<times> Vec3"

subsection \<open>Back-face culling and flat lighting\<close>

definition face_normal :: "triangle \<Rightarrow> Vec3" where
  "face_normal t =
     (case t of (v0, v1, v2) \<Rightarrow>
        (let edge1 = Vec3_subtract v1 v0;
             edge2 = Vec3_subtract v2 v0
         in Vec3_normalize (Vec3_cross edge1 edge2)))"

definition view_vector :: "Vec3 \<Rightarrow> triangle \<Rightarrow> Vec3" where
  "view_vector cam t =
     (case t of (v0, v1, v2) \<Rightarrow> Vec3_normalize (Vec3_subtract v0 cam))"

text \<open>The test \<open>if (Vec3::dot(face_normal, view_vector) >= 0) continue;\<close>\<close>

definition back_face_culled :: "Vec3 \<Rightarrow> triangle \<Rightarrow> bool" where
  "back_face_culled cam t \<longleftrightarrow> Vec3_dot (face_normal t) (view_vector cam t) \<ge> 0"

text \<open>
  The cull test in the words of the specification, for comparison with the code: the
  view vector runs from the first vertex toward the camera (camera position minus
  first vertex).
\<close>

definition spec_view_vector :: "Vec3 \<Rightarrow> triangle \<Rightarrow> Vec3" where
  "spec_view_vector cam t = (case t of (v0, v1, v2) \<Rightarrow> Vec3_subtract cam v0)"

definition spec_back_face_culled :: "Vec3 \<Rightarrow> triangle \<Rightarrow> bool" where
  "spec_back_face_culled cam t \<longleftrightarrow> Vec3_dot (face_normal t) (spec_view_vector cam t) \<ge> 0"

definition flat_intensity :: "Vec3 \<Rightarrow> triangle \<Rightarrow> real" where
  "flat_intensity light t =
     (let intensity = Vec3_dot (face_normal t) (Vec3_scale light (- 1))
      in max (1 / 10) intensity)"

subsection \<open>Vertex transformation\<close>

text \<open>
  One round of the vertex loop: \<open>None\<close> is the \<open>break\<close> with \<open>behind_camera = true\<close>,
  otherwise the result is \<open>inv_w[i]\<close> and \<open>v_screen[i]\<close>.
\<close>

definition project_vertex :: "Mat4 \<Rightarrow> int \<Rightarrow> int \<Rightarrow> Vec3 \<Rightarrow> (real \<times> Vec3) option" where
  "project_vertex mvp W H v =
     (let v_clip = Mat4_transform mvp \<lparr>cx = vx v, cy = vy v, cz = vz v, cw = 1\<rparr>
      in if cw v_clip \<le> 0 then None
         else
           (let inv_w = 1 / cw v_clip;
                v_ndc = \<lparr>vx = cx v_clip * inv_w, vy = cy v_clip * inv_w, vz = cz v_clip * inv_w\<rparr>;
                v_screen =
                  \<lparr>vx = (vx v_ndc + 1) * (1 / 2) * real_of_int W,
                   vy = (1 - vy v_ndc) * (1 / 2) * real_of_int H,
                   vz = vz v_ndc\<rparr>
            in Some (inv_w, v_screen)))"

text \<open>
  The loop over the three vertices: it stops at the first vertex behind the camera, and
  \<open>if (behind_camera) continue;\<close> then leaves the triangle.
\<close>

definition project_vertices ::
  "Mat4 \<Rightarrow> int \<Rightarrow> int \<Rightarrow> triangle \<Rightarrow> ((real \<times> real \<times> real) \<times> triangle) option" where
  "project_vertices mvp W H t =
     (case t of (v0, v1, v2) \<Rightarrow>
        (case project_vertex mvp W H v0 of
           None \<Rightarrow> None
         | Some (iw0, s0) \<Rightarrow>
             (case project_vertex mvp W H v1 of
                None \<Rightarrow> None
              | Some (iw1, s1) \<Rightarrow>
                  (case project_vertex mvp W H v2 of
                     None \<Rightarrow> None
                   | Some (iw2, s2) \<Rightarrow> Some ((iw0, iw1, iw2), (s0, s1, s2))))))"

subsection \<open>Bounding box and per-pixel loop\<close>

text \<open>\<open>std::min({a, b, c})\<close> and \<open>std::max({a, b, c})\<close>.\<close>

definition min3 :: "real \<Rightarrow> real \<Rightarrow> real \<Rightarrow> real" where
  "min3 a b c = min a (min b c)"

definition max3 :: "real \<Rightarrow> real \<Rightarrow> real \<Rightarrow> real" where
  "max3 a b c = max a (max b c)"

definition bbox_minX :: "triangle \<Rightarrow> int" where
  "bbox_minX s = (case s of (s0, s1, s2) \<Rightarrow> max 0 (static_cast_int (min3 (vx s0) (vx s1) (vx s2))))"

definition bbox_maxX :: "int \<Rightarrow> triangle \<Rightarrow> int" where
  "bbox_maxX W s =
     (case s of (s0, s1, s2) \<Rightarrow>
        min (W - 1) (static_cast_int (std_ceil (max3 (vx s0) (vx s1) (vx s2)))))"

definition bbox_minY :: "triangle \<Rightarrow> int" where
  "bbox_minY s = (case s of (s0, s1, s2) \<Rightarrow> max 0 (static_cast_int (min3 (vy s0) (vy s1) (vy s2))))"

definition bbox_maxY :: "int \<Rightarrow> triangle \<Rightarrow> int" where
  "bbox_maxY H s =
     (case s of (s0, s1, s2) \<Rightarrow>
        min (H - 1) (static_cast_int (std_ceil (max3 (vy s0) (vy s1) (vy s2)))))"

text \<open>The barycentric coordinates of the centre of cell \<open>(x, y)\<close>.\<close>

definition cell_bc :: "triangle \<Rightarrow> int \<Rightarrow> int \<Rightarrow> Vec3" where
  "cell_bc s x y =
     (case s of (s0, s1, s2) \<Rightarrow>
        (let p = \<lparr>vx = real_of_int x + 1 / 2, vy = real_of_int y + 1 / 2, vz = 0\<rparr>
         in barycentric p s0 s1 s2))"

text \<open>The cell passes the test \<open>if (bc.x < 0 || bc.y < 0 || bc.z < 0) continue;\<close>\<close>

definition inside :: "triangle \<Rightarrow> int \<Rightarrow> int \<Rightarrow> bool" where
  "inside s x y \<longleftrightarrow>
     (let bc = cell_bc s x y in \<not> (vx bc < 0 \<or> vy bc < 0 \<or> vz bc < 0))"

definition interpolated_inv_w :: "(real \<times> real \<times> real) \<Rightarrow> triangle \<Rightarrow> int \<Rightarrow> int \<Rightarrow> real" where
  "interpolated_inv_w inv_w s x y =
     (case inv_w of (iw0, iw1, iw2) \<Rightarrow>
        (let bc = cell_bc s x y in vx bc * iw0 + vy bc * iw1 + vz bc * iw2))"

text \<open>
  The body of the inner loop for the cell \<open>(x, y)\<close>. The C++ code indexes the two
  vectors with \<open>y * SCREEN_WIDTH + x\<close> unchecked; the bounds of the loops keep the index
  inside both vectors (see C10), so the list operations below are never used out of range.
\<close>

definition shade_pixel ::
  "int \<Rightarrow> char \<Rightarrow> (real \<times> real \<times> real) \<Rightarrow> triangle \<Rightarrow> int \<Rightarrow> int \<Rightarrow> frame \<Rightarrow> frame" where
  "shade_pixel W ascii_char inv_w s y x fb =
     (if \<not> inside s x y then fb
      else
        (let iw = interpolated_inv_w inv_w s x y;
             i = nat (y * W + x)
         in if iw > depth_buffer fb ! i
            then fb\<lparr>depth_buffer := (depth_buffer fb)[i := iw],
                    char_buffer := (char_buffer fb)[i := ascii_char]\<rparr>
            else fb))"

text \<open>
  The two nested loops \<open>for (y = minY; y <= maxY; ++y) for (x = minX; x <= maxX; ++x)\<close>.
\<close>

definition rasterize ::
  "int \<Rightarrow> int \<Rightarrow> char \<Rightarrow> (real \<times> real \<times> real) \<Rightarrow> triangle \<Rightarrow> frame \<Rightarrow> frame" where
  "rasterize W H ascii_char inv_w s fb =
     fold (\<lambda>y. fold (\<lambda>x. shade_pixel W ascii_char inv_w s y x) [bbox_minX s .. bbox_maxX W s])
       [bbox_minY s .. bbox_maxY H s] fb"

subsection \<open>One triangle, one frame\<close>

definition render_triangle ::
  "Vec3 \<Rightarrow> Vec3 \<Rightarrow> Mat4 \<Rightarrow> int \<Rightarrow> int \<Rightarrow> triangle \<Rightarrow> frame \<Rightarrow> frame" where
  "render_triangle cam light mvp W H t fb =
     (if back_face_culled cam t then fb
      else
        (let ascii_char = get_ascii_char (flat_intensity light t)
         in case project_vertices mvp W H t of
              None \<Rightarrow> fb
            | Some (inv_w, s) \<Rightarrow> rasterize W H ascii_char inv_w s fb))"

text \<open>
  The render loop of one frame over the triangles of the mesh (the faces with three
  vertices; the loop skips every other face), starting from the cleared buffers.
\<close>

definition render_frame ::
  "Vec3 \<Rightarrow> Vec3 \<Rightarrow> Mat4 \<Rightarrow> int \<Rightarrow> int \<Rightarrow> triangle list \<Rightarrow> frame" where
  "render_frame cam light mvp W H ts =
     fold (render_triangle cam light mvp W H) ts (clear_buffers W H)"

section \<open>Command line\<close>

text \<open>
  The start of \<open>main\<close>. \<open>argv\<close> is the program name followed by the arguments, so
  \<open>argc = 1 + length args\<close>. The result is either the text written to \<open>std::cerr\<close>
  with the exit code, or the two paths \<open>argv[1]\<close> and \<open>argv[2]\<close> the program
  goes on with. \<open>std::endl\<close> ends the message with a newline.
\<close>

definition usage_message :: "string \<Rightarrow> string" where
  "usage_message prog =
     ''Usage: '' @ prog @ '' <path_to_obj_file> <path_to_font_file>'' @ [CHR 0x0A]"

definition main_args :: "string \<Rightarrow> string list \<Rightarrow> (string \<times> int) + (string \<times> string)" where
  "main_args prog args =
     (let argc = 1 + int (length args)
      in if argc < 3 then Inl (usage_message prog, 1)
         else Inr (args ! 0, args ! 1))"

section \<open>Derived notions used in the statements\<close>

text \<open>The depth and the glyph stored for the cell at index \<open>k\<close>.\<close>

definition cell :: "frame \<Rightarrow> nat \<Rightarrow> real \<times> char" where
  "cell fb k = (depth_buffer fb ! k, char_buffer fb ! k)"

text \<open>
  The per-pixel body run over a list of cells \<open>(y, x)\<close>; the nested loops of
  \<open>rasterize\<close> are this fold over the rows and columns of the bounding box.
\<close>

definition pixels ::
  "int \<Rightarrow> char \<Rightarrow> (real \<times> real \<times> real) \<Rightarrow> triangle \<Rightarrow> (int \<times> int) list \<Rightarrow> frame \<Rightarrow> frame" where
  "pixels W g iw s cs fb = fold (\<lambda>(y, x). shade_pixel W g iw s y x) cs fb"

text \<open>
  The cell \<open>(x, y)\<close> is visited by the loops for the screen-space triangle \<open>s\<close> and
  passes the inside test.
\<close>

definition covers :: "int \<Rightarrow> int \<Rightarrow> triangle \<Rightarrow> int \<Rightarrow> int \<Rightarrow> bool" where
  "covers W H s x y \<longleftrightarrow>
     bbox_minX s \<le> x \<and> x \<le> bbox_maxX W s \<and> bbox_minY s \<le> y \<and> y \<le> bbox_maxY H s \<and>
     inside s x y"

text \<open>The glyph chosen for a world-space triangle.\<close>

definition glyph_of :: "Vec3 \<Rightarrow> triangle \<Rightarrow> char" where
  "glyph_of light t = get_ascii_char (flat_intensity light t)"

text \<open>
  The rasterized footprint of a world-space triangle: it survives the back-face test and
  the behind-camera test, and its screen-space triangle covers the cell.
\<close>

definition footprint :: "Vec3 \<Rightarrow> Mat4 \<Rightarrow> int \<Rightarrow> int \<Rightarrow> triangle \<Rightarrow> int \<Rightarrow> int \<Rightarrow> bool" where
  "footprint cam mvp W H t x y \<longleftrightarrow>
     \<not> back_face_culled cam t \<and>
     (case project_vertices mvp W H t of
        None \<Rightarrow> False
      | Some (inv_w, s) \<Rightarrow> covers W H s x y)"

text \<open>The interpolated \<open>invW\<close> of a world-space triangle at a cell.\<close>

definition depth_at :: "Mat4 \<Rightarrow> int \<Rightarrow> int \<Rightarrow> triangle \<Rightarrow> int \<Rightarrow> int \<Rightarrow> real" where
  "depth_at mvp W H t x y =
     (case project_vertices mvp W H t of
        None \<Rightarrow> 0
      | Some (inv_w, s) \<Rightarrow> interpolated_inv_w inv_w s x y)"

text \<open>The clip-space \<open>w\<close> of a vertex: \<open>v_clip[i].w\<close>.\<close>

definition clip_w :: "Mat4 \<Rightarrow> Vec3 \<Rightarrow> real" where
  "clip_w mvp v = cw (Mat4_transform mvp \<lparr>cx = vx v, cy = vy v, cz = vz v, cw = 1\<rparr>)"

section \<open>A small scene\<close>

text \<open>
  Concrete inputs on a 4 x 4 grid: a camera at the origin looking along \<open>+z\<close>, a matrix
  whose clip-space \<open>w\<close> is the \<open>z\<close> of the vertex, a light shining along \<open>+z\<close>, a
  triangle at depth 1 and a tilted one farther away that reaches the same cells.
\<close>

definition scene_mvp :: Mat4 where
  "scene_mvp = [1, 0, 0, 0,  0, 1, 0, 0,  0, 0, 1, 1,  0, 0, 0, 0]"

definition scene_cam :: Vec3 where
  "scene_cam = \<lparr>vx = 0, vy = 0, vz = 0\<rparr>"

definition scene_light :: Vec3 where
  "scene_light = \<lparr>vx = 0, vy = 0, vz = 1\<rparr>"

definition scene_near :: triangle where
  "scene_near =
     (\<lparr>vx = 0, vy = 0, vz = 1\<rparr>, \<lparr>vx = 0, vy = 1, vz = 1\<rparr>, \<lparr>vx = 1, vy = 0, vz = 1\<rparr>)"

definition scene_far :: triangle where
  "scene_far =
     (\<lparr>vx = 0, vy = 0, vz = 2\<rparr>, \<lparr>vx = 0, vy = 2, vz = 2\<rparr>, \<lparr>vx = 4, vy = 0, vz = 5\<rparr>)"

text \<open>\<open>scene_near\<close> with the opposite winding.\<close>

definition scene_back :: triangle where
  "scene_back =
     (\<lparr>vx = 0, vy = 0, vz = 1\<rparr>, \<lparr>vx = 1, vy = 0, vz = 1\<rparr>, \<lparr>vx = 0, vy = 1, vz = 1\<rparr>)"

text \<open>A triangle facing the camera whose third vertex lies behind the camera plane.\<close>

definition scene_behind :: triangle where
  "scene_behind =
     (\<lparr>vx = 0, vy = 0, vz = 1\<rparr>, \<lparr>vx = 0, vy = 1, vz = 1\<rparr>, \<lparr>vx = 1, vy = 0, vz = - 1\<rparr>)"

text \<open>A triangle facing the camera that is a hundredth of a cell wide on the screen.\<close>

definition scene_tiny :: triangle where
  "scene_tiny =
     (\<lparr>vx = 0, vy = 0, vz = 1\<rparr>, \<lparr>vx = 0, vy = 1 / 200, vz = 1\<rparr>, \<lparr>vx = 1 / 200, vy = 0, vz = 1\<rparr>)"

text \<open>The screen-space vertices of \<open>scene_near\<close> and of \<open>scene_tiny\<close>.\<close>

definition scene_near_screen :: triangle where
  "scene_near_screen =
     (\<lparr>vx = 2, vy = 2, vz = 1\<rparr>, \<lparr>vx = 2, vy = 0, vz = 1\<rparr>, \<lparr>vx = 4, vy = 2, vz = 1\<rparr>)"

definition scene_tiny_screen :: triangle where
  "scene_tiny_screen =
     (\<lparr>vx = 2, vy = 2, vz = 1\<rparr>, \<lparr>vx = 2, vy = 199 / 100, vz = 1\<rparr>, \<lparr>vx = 201 / 100, vy = 2, vz = 1\<rparr>)"

text \<open>
  A triangle in front of the camera of \<open>main\<close> whose normal \<open>(1, 0, 0)\<close> points away
  from the light of \<open>main\<close>.
\<close>

definition dark_triangle :: triangle where
  "dark_triangle =
     (\<lparr>vx = - 1, vy = 0, vz = 0\<rparr>, \<lparr>vx = - 1, vy = 1, vz = 0\<rparr>, \<lparr>vx = - 1, vy = 0, vz = 1\<rparr>)"

section \<open>Vectors\<close>

text \<open>
  In exact arithmetic a normalized vector has length 1 unless it is the zero vector, and
  normalizing both arguments does not change the sign of a dot product.
\<close>

lemmas vec_defs = Vec3_subtract_def Vec3_dot_def Vec3_cross_def Vec3_scale_def Vec3_length_def
  Vec3_normalize_def Vec3_zero_def

lemma Vec3_dot_self_nonneg: "0 \<le> Vec3_dot v v"
  by (simp add: Vec3_dot_def)

lemma Vec3_length_nonneg: "0 \<le> Vec3_length v"
  by (simp add: Vec3_length_def Vec3_dot_self_nonneg)

lemma Vec3_length_zero_iff: "Vec3_length v \<le> 0 \<longleftrightarrow> vx v = 0 \<and> vy v = 0 \<and> vz v = 0"
proof -
  have "Vec3_length v \<le> 0 \<longleftrightarrow> Vec3_dot v v = 0"
    using Vec3_dot_self_nonneg [of v] by (simp add: Vec3_length_def)
  also have "\<dots> \<longleftrightarrow> vx v = 0 \<and> vy v = 0 \<and> vz v = 0"
    by (auto simp: Vec3_dot_def add_nonneg_eq_0_iff)
  finally show ?thesis .
qed

lemma Vec3_normalize_length:
  assumes "0 < Vec3_length v"
  shows "Vec3_length (Vec3_normalize v) = 1"
proof -
  define l where "l = Vec3_length v"
  have l: "0 < l" using assms by (simp add: l_def)
  have sq: "l * l = Vec3_dot v v"
    using Vec3_dot_self_nonneg [of v] by (simp add: l_def Vec3_length_def)
  have "Vec3_dot (Vec3_scale v (1 / l)) (Vec3_scale v (1 / l)) = Vec3_dot v v / (l * l)"
    by (simp add: Vec3_dot_def Vec3_scale_def add_divide_distrib)
  also have "\<dots> = 1" using l by (simp add: sq [symmetric])
  finally have "Vec3_length (Vec3_scale v (1 / l)) = 1" by (simp add: Vec3_length_def)
  then show ?thesis using l by (simp add: Vec3_normalize_def l_def Let_def)
qed

lemma Vec3_normalize_zero_iff: "Vec3_normalize v = Vec3_zero \<longleftrightarrow> Vec3_length v \<le> 0"
proof
  assume z: "Vec3_normalize v = Vec3_zero"
  show "Vec3_length v \<le> 0"
  proof (rule ccontr)
    assume "\<not> Vec3_length v \<le> 0"
    then have "0 < Vec3_length v" by simp
    then have "Vec3_length (Vec3_normalize v) = 1" by (rule Vec3_normalize_length)
    then show False using z by (simp add: Vec3_length_def Vec3_dot_def Vec3_zero_def)
  qed
next
  assume "Vec3_length v \<le> 0"
  then show "Vec3_normalize v = Vec3_zero" by (simp add: Vec3_normalize_def Let_def)
qed

lemma dot_normalize_sign:
  "0 \<le> Vec3_dot (Vec3_normalize a) (Vec3_normalize b) \<longleftrightarrow> 0 \<le> Vec3_dot a b"
proof (cases "0 < Vec3_length a \<and> 0 < Vec3_length b")
  case True
  have "Vec3_dot (Vec3_normalize a) (Vec3_normalize b) = Vec3_dot a b / (Vec3_length a * Vec3_length b)"
    using True by (simp add: Vec3_normalize_def Let_def Vec3_dot_def Vec3_scale_def field_simps)
  moreover have "0 < Vec3_length a * Vec3_length b" using True by simp
  ultimately show ?thesis by (simp add: zero_le_divide_iff not_le [symmetric])
next
  case False
  then consider "Vec3_length a \<le> 0" | "Vec3_length b \<le> 0" by fastforce
  then have "Vec3_dot a b = 0 \<and> Vec3_dot (Vec3_normalize a) (Vec3_normalize b) = 0"
  proof cases
    case 1
    then have "Vec3_normalize a = Vec3_zero" "vx a = 0 \<and> vy a = 0 \<and> vz a = 0"
      by (simp_all add: Vec3_normalize_zero_iff Vec3_length_zero_iff)
    then show ?thesis by (simp add: Vec3_dot_def Vec3_zero_def)
  next
    case 2
    then have "Vec3_normalize b = Vec3_zero" "vx b = 0 \<and> vy b = 0 \<and> vz b = 0"
      by (simp_all add: Vec3_normalize_zero_iff Vec3_length_zero_iff)
    then show ?thesis by (simp add: Vec3_dot_def Vec3_zero_def)
  qed
  then show ?thesis by simp
qed

lemma back_face_culled_iff:
  "back_face_culled cam (v0, v1, v2) \<longleftrightarrow>
   0 \<le> Vec3_dot (Vec3_cross (Vec3_subtract v1 v0) (Vec3_subtract v2 v0)) (Vec3_subtract v0 cam)"
  by (simp add: back_face_culled_def face_normal_def view_vector_def dot_normalize_sign Let_def)

lemma light_direction_value: "light_direction = \<lparr>vx = 1 / 3, vy = - 2 / 3, vz = - 2 / 3\<rparr>"
proof -
  have s: "sqrt (9 / 4) = 3 / 2" by (simp add: real_sqrt_divide)
  show ?thesis
    by (simp add: light_direction_def vec_defs Let_def s)
qed

section \<open>Glyph ramp\<close>

lemma get_ascii_char_index:
  "get_ascii_char i = ascii_chars ! (if i < 1 / 9 then 0 else if 1 \<le> i then 9 else nat \<lfloor>i * 9\<rfloor>)"
proof -
  consider "i < 0" | "0 \<le> i" "i < 1 / 9" | "1 / 9 \<le> i" "i < 1" | "1 \<le> i" by linarith
  then show ?thesis
  proof cases
    case 1
    then have "\<lceil>i * 9\<rceil> \<le> 0" by (simp add: ceiling_le_iff)
    then show ?thesis using 1 by (simp add: get_ascii_char_def static_cast_int_def ascii_chars_def Let_def)
  next
    case 2
    then have "\<lfloor>i * 9\<rfloor> = 0" by (simp add: floor_eq_iff)
    then show ?thesis using 2 by (simp add: get_ascii_char_def static_cast_int_def ascii_chars_def Let_def)
  next
    case 3
    then have "1 \<le> \<lfloor>i * 9\<rfloor>" "\<lfloor>i * 9\<rfloor> < 9" by (simp_all add: le_floor_iff floor_less_iff)
    then show ?thesis using 3 by (simp add: get_ascii_char_def static_cast_int_def ascii_chars_def Let_def)
  next
    case 4
    then have "9 \<le> \<lfloor>i * 9\<rfloor>" by (simp add: le_floor_iff)
    then show ?thesis using 4 by (simp add: get_ascii_char_def static_cast_int_def ascii_chars_def Let_def)
  qed
qed

lemma ambient_floor_no_effect: "get_ascii_char (max (1 / 10) i) = get_ascii_char i"
  by (simp add: get_ascii_char_index max_def)

section \<open>The rasterization loop, cell by cell\<close>

text \<open>
  Every round of the loops touches one index, and two cells of the grid never share an
  index; so the value of a cell after the loops is the value after its own round.
\<close>

lemma index_inj:
  fixes W :: int
  assumes "0 \<le> x" "x < W" "0 \<le> x'" "x' < W" "0 \<le> y" "0 \<le> y'"
    and eq: "nat (y * W + x) = nat (y' * W + x')"
  shows "x = x' \<and> y = y'"
proof -
  have W: "0 < W" using assms by linarith
  have "0 \<le> y * W" "0 \<le> y' * W" using assms W by simp_all
  then have e: "y * W + x = y' * W + x'" using eq assms by linarith
  have "(y * W + x) mod W = x" using assms by simp
  moreover have "(y' * W + x') mod W = x'" using assms by simp
  ultimately have xx: "x = x'" using e by simp
  then have "y * W = y' * W" using e by simp
  then have "y = y'" using W by simp
  with xx show ?thesis by simp
qed

lemma shade_pixel_length:
  "length (depth_buffer (shade_pixel W g iw s y x fb)) = length (depth_buffer fb) \<and>
   length (char_buffer (shade_pixel W g iw s y x fb)) = length (char_buffer fb)"
  by (simp add: shade_pixel_def Let_def)

lemma shade_pixel_other:
  "nat (y * W + x) \<noteq> k \<Longrightarrow> cell (shade_pixel W g iw s y x fb) k = cell fb k"
  by (simp add: shade_pixel_def Let_def cell_def)

lemma shade_pixel_at:
  assumes "k = nat (y * W + x)" "k < length (depth_buffer fb)" "k < length (char_buffer fb)"
  shows "cell (shade_pixel W g iw s y x fb) k =
         (if inside s x y \<and> interpolated_inv_w iw s x y > fst (cell fb k)
          then (interpolated_inv_w iw s x y, g) else cell fb k)"
  using assms by (simp add: shade_pixel_def Let_def cell_def)

lemma nested_fold:
  "fold (\<lambda>y. fold (\<lambda>x. f y x) xs) ys fb = fold (\<lambda>(y, x). f y x) (List.product ys xs) fb"
proof (induction ys arbitrary: fb)
  case Nil
  show ?case by simp
next
  case (Cons y ys)
  have "fold (\<lambda>(y, x). f y x) (map (Pair y) xs) fb = fold (\<lambda>x. f y x) xs fb"
    by (simp add: fold_map comp_def)
  then show ?case using Cons by simp
qed

lemma pixels_length:
  "length (depth_buffer (pixels W g iw s cs fb)) = length (depth_buffer fb) \<and>
   length (char_buffer (pixels W g iw s cs fb)) = length (char_buffer fb)"
proof (induction cs arbitrary: fb)
  case Nil
  show ?case by (simp add: pixels_def)
next
  case (Cons c cs)
  obtain y x where c: "c = (y, x)" by (cases c)
  have "pixels W g iw s (c # cs) fb = pixels W g iw s cs (shade_pixel W g iw s y x fb)"
    by (simp add: pixels_def c)
  then show ?case using Cons [of "shade_pixel W g iw s y x fb"] shade_pixel_length [of W g iw s y x fb]
    by simp
qed

lemma pixels_other:
  assumes "\<And>y x. (y, x) \<in> set cs \<Longrightarrow> nat (y * W + x) \<noteq> k"
  shows "cell (pixels W g iw s cs fb) k = cell fb k"
  using assms
proof (induction cs arbitrary: fb)
  case Nil
  show ?case by (simp add: pixels_def)
next
  case (Cons c cs)
  obtain y x where c: "c = (y, x)" by (cases c)
  have step: "pixels W g iw s (c # cs) fb = pixels W g iw s cs (shade_pixel W g iw s y x fb)"
    by (simp add: pixels_def c)
  have "nat (y * W + x) \<noteq> k" using Cons.prems [of y x] c by simp
  then have "cell (shade_pixel W g iw s y x fb) k = cell fb k" by (rule shade_pixel_other)
  moreover have "cell (pixels W g iw s cs (shade_pixel W g iw s y x fb)) k
                 = cell (shade_pixel W g iw s y x fb) k"
    using Cons.prems by (intro Cons.IH) simp
  ultimately show ?case using step by simp
qed

lemma pixels_hit:
  assumes "distinct cs" "(y, x) \<in> set cs"
    and inj: "\<And>y' x'. (y', x') \<in> set cs \<Longrightarrow> (y', x') \<noteq> (y, x) \<Longrightarrow> nat (y' * W + x') \<noteq> nat (y * W + x)"
    and k: "k = nat (y * W + x)" "k < length (depth_buffer fb)" "k < length (char_buffer fb)"
  shows "cell (pixels W g iw s cs fb) k = cell (shade_pixel W g iw s y x fb) k"
  using assms
proof (induction cs arbitrary: fb)
  case Nil
  then show ?case by simp
next
  case (Cons c cs)
  obtain y' x' where c: "c = (y', x')" by (cases c)
  let ?fb1 = "shade_pixel W g iw s y' x' fb"
  have step: "pixels W g iw s (c # cs) fb = pixels W g iw s cs ?fb1"
    by (simp add: pixels_def c)
  show ?case
  proof (cases "c = (y, x)")
    case True
    then have yx: "y' = y" "x' = x" using c by simp_all
    have "(y, x) \<notin> set cs" using Cons.prems(1) True by simp
    then have "\<And>y'' x''. (y'', x'') \<in> set cs \<Longrightarrow> nat (y'' * W + x'') \<noteq> k"
      using Cons.prems(3) Cons.prems(4) by (metis list.set_intros(2))
    then have "cell (pixels W g iw s cs ?fb1) k = cell ?fb1 k" by (rule pixels_other)
    then show ?thesis using step yx by simp
  next
    case False
    then have mem: "(y, x) \<in> set cs" using Cons.prems(2) by simp
    have ne: "nat (y' * W + x') \<noteq> k" using Cons.prems(3) [of y' x'] False c Cons.prems(4) by simp
    have same: "cell ?fb1 k = cell fb k" using ne by (rule shade_pixel_other)
    have len: "k < length (depth_buffer ?fb1)" "k < length (char_buffer ?fb1)"
      using Cons.prems(5,6) shade_pixel_length [of W g iw s y' x' fb] by simp_all
    have "cell (pixels W g iw s cs ?fb1) k = cell (shade_pixel W g iw s y x ?fb1) k"
      using Cons.prems(1) mem Cons.prems(3) Cons.prems(4) len
      by (intro Cons.IH) simp_all
    also have "\<dots> = cell (shade_pixel W g iw s y x fb) k"
      using shade_pixel_at [OF Cons.prems(4) len, of g iw s] shade_pixel_at [OF Cons.prems(4) Cons.prems(5) Cons.prems(6), of g iw s] same
      by simp
    finally show ?thesis using step by simp
  qed
qed

lemma rasterize_pixels:
  "rasterize W H g iw s fb =
   pixels W g iw s (List.product [bbox_minY s .. bbox_maxY H s] [bbox_minX s .. bbox_maxX W s]) fb"
  by (simp add: rasterize_def pixels_def nested_fold)

lemma bbox_bounds:
  "0 \<le> bbox_minX s \<and> bbox_maxX W s \<le> W - 1 \<and> 0 \<le> bbox_minY s \<and> bbox_maxY H s \<le> H - 1"
  by (cases s) (auto simp: bbox_minX_def bbox_maxX_def bbox_minY_def bbox_maxY_def min_def)

lemma rasterize_length:
  "length (depth_buffer (rasterize W H g iw s fb)) = length (depth_buffer fb) \<and>
   length (char_buffer (rasterize W H g iw s fb)) = length (char_buffer fb)"
  by (simp add: rasterize_pixels pixels_length)

lemma rasterize_cell:
  assumes x: "0 \<le> x" "x < W" and y: "0 \<le> y"
    and k: "k = nat (y * W + x)" "k < length (depth_buffer fb)" "k < length (char_buffer fb)"
  shows "cell (rasterize W H g iw s fb) k =
         (if covers W H s x y \<and> interpolated_inv_w iw s x y > fst (cell fb k)
          then (interpolated_inv_w iw s x y, g) else cell fb k)"
proof -
  let ?cs = "List.product [bbox_minY s .. bbox_maxY H s] [bbox_minX s .. bbox_maxX W s]"
  have bb: "0 \<le> bbox_minX s" "bbox_maxX W s \<le> W - 1" "0 \<le> bbox_minY s"
    using bbox_bounds [of s W H] by simp_all
  have sep: "nat (y' * W + x') \<noteq> nat (y * W + x)"
    if "(y', x') \<in> set ?cs" "(y', x') \<noteq> (y, x)" for y' x'
  proof
    assume e: "nat (y' * W + x') = nat (y * W + x)"
    have "0 \<le> x'" "x' < W" "0 \<le> y'" using that(1) bb by auto
    then have "x' = x \<and> y' = y" using index_inj [of x' W x y' y] x y e by simp
    then show False using that(2) by simp
  qed
  show ?thesis
  proof (cases "(y, x) \<in> set ?cs")
    case True
    have "distinct ?cs" by (simp add: distinct_product)
    then have "cell (pixels W g iw s ?cs fb) k = cell (shade_pixel W g iw s y x fb) k"
      using True sep k by (intro pixels_hit) auto
    moreover have "covers W H s x y \<longleftrightarrow> inside s x y" using True by (auto simp: covers_def)
    ultimately show ?thesis
      using shade_pixel_at [OF k, of g iw s] by (simp add: rasterize_pixels)
  next
    case False
    then have "\<And>y' x'. (y', x') \<in> set ?cs \<Longrightarrow> nat (y' * W + x') \<noteq> k"
      using sep k(1) by metis
    then have "cell (pixels W g iw s ?cs fb) k = cell fb k" by (rule pixels_other)
    moreover have "\<not> covers W H s x y" using False by (auto simp: covers_def)
    ultimately show ?thesis by (simp add: rasterize_pixels)
  qed
qed

lemma covers_in_grid:
  assumes "covers W H s x y"
  shows "0 \<le> x \<and> x < W \<and> 0 \<le> y \<and> y < H \<and> 0 \<le> y * W + x \<and> y * W + x < W * H"
proof -
  have b: "0 \<le> x" "x \<le> W - 1" "0 \<le> y" "y \<le> H - 1"
    using assms bbox_bounds [of s W H] by (auto simp: covers_def)
  then have W: "0 < W" by linarith
  have "y * W \<le> (H - 1) * W" using b W by (intro mult_right_mono) simp_all
  then have "y * W + x < W * H" using b by (simp add: algebra_simps)
  moreover have "0 \<le> y * W" using b W by simp
  ultimately show ?thesis using b by simp
qed

lemma barycentric_sum:
  assumes "\<not> (vx (barycentric p a b c) < 0 \<or> vy (barycentric p a b c) < 0 \<or> vz (barycentric p a b c) < 0)"
  shows "vx (barycentric p a b c) + vy (barycentric p a b c) + vz (barycentric p a b c) = 1"
  using assms by (auto simp: barycentric_def Let_def split: if_splits)

lemma project_vertex_inv_w_pos:
  "project_vertex mvp W H v = Some (iw, sv) \<Longrightarrow> 0 < iw"
  by (auto simp: project_vertex_def Let_def split: if_splits)

lemma project_vertices_inv_w_pos:
  assumes "project_vertices mvp W H t = Some ((iw0, iw1, iw2), s)"
  shows "0 < iw0 \<and> 0 < iw1 \<and> 0 < iw2"
proof -
  obtain v0 v1 v2 where t: "t = (v0, v1, v2)" by (cases t)
  obtain s0 s1 s2 where
    "project_vertex mvp W H v0 = Some (iw0, s0)"
    "project_vertex mvp W H v1 = Some (iw1, s1)"
    "project_vertex mvp W H v2 = Some (iw2, s2)"
    using assms unfolding t by (auto simp: project_vertices_def split: option.splits)
  then show ?thesis using project_vertex_inv_w_pos by blast
qed

lemma interpolated_inv_w_pos:
  assumes "inside s x y" "0 < iw0" "0 < iw1" "0 < iw2"
  shows "0 < interpolated_inv_w (iw0, iw1, iw2) s x y"
proof -
  obtain s0 s1 s2 where s: "s = (s0, s1, s2)" by (cases s)
  define bc where "bc = cell_bc s x y"
  have nn: "0 \<le> vx bc" "0 \<le> vy bc" "0 \<le> vz bc"
    using assms(1) by (simp_all add: inside_def bc_def Let_def not_less)
  have "vx bc + vy bc + vz bc = 1"
    using assms(1) barycentric_sum unfolding inside_def bc_def cell_bc_def s Let_def by simp
  then consider "0 < vx bc" | "0 < vy bc" | "0 < vz bc" using nn by linarith
  then have "0 < vx bc * iw0 + vy bc * iw1 + vz bc * iw2"
  proof cases
    case 1
    then have "0 < vx bc * iw0" using assms by simp
    moreover have "0 \<le> vy bc * iw1" "0 \<le> vz bc * iw2" using nn assms by simp_all
    ultimately show ?thesis by linarith
  next
    case 2
    then have "0 < vy bc * iw1" using assms by simp
    moreover have "0 \<le> vx bc * iw0" "0 \<le> vz bc * iw2" using nn assms by simp_all
    ultimately show ?thesis by linarith
  next
    case 3
    then have "0 < vz bc * iw2" using assms by simp
    moreover have "0 \<le> vx bc * iw0" "0 \<le> vy bc * iw1" using nn assms by simp_all
    ultimately show ?thesis by linarith
  qed
  then show ?thesis by (simp add: interpolated_inv_w_def bc_def Let_def)
qed

lemma footprint_depth_pos:
  assumes "footprint cam mvp W H t x y"
  shows "0 < depth_at mvp W H t x y"
proof -
  from assms obtain iw s where p: "project_vertices mvp W H t = Some (iw, s)" and c: "covers W H s x y"
    by (auto simp: footprint_def split: option.splits)
  obtain iw0 iw1 iw2 where iw: "iw = (iw0, iw1, iw2)" by (cases iw)
  have "0 < iw0 \<and> 0 < iw1 \<and> 0 < iw2" using p project_vertices_inv_w_pos unfolding iw by blast
  moreover have "inside s x y" using c by (simp add: covers_def)
  ultimately show ?thesis using p by (simp add: depth_at_def iw interpolated_inv_w_pos)
qed

lemma render_triangle_length:
  "length (depth_buffer (render_triangle cam light mvp W H t fb)) = length (depth_buffer fb) \<and>
   length (char_buffer (render_triangle cam light mvp W H t fb)) = length (char_buffer fb)"
  by (simp add: render_triangle_def Let_def rasterize_length split: option.splits)

lemma render_triangle_cell:
  assumes "0 \<le> x" "x < W" "0 \<le> y"
    and "k = nat (y * W + x)" "k < length (depth_buffer fb)" "k < length (char_buffer fb)"
  shows "cell (render_triangle cam light mvp W H t fb) k =
         (if footprint cam mvp W H t x y \<and> depth_at mvp W H t x y > fst (cell fb k)
          then (depth_at mvp W H t x y, glyph_of light t) else cell fb k)"
proof (cases "back_face_culled cam t")
  case True
  then show ?thesis by (simp add: render_triangle_def footprint_def)
next
  case False
  show ?thesis
  proof (cases "project_vertices mvp W H t")
    case None
    then show ?thesis using False by (simp add: render_triangle_def footprint_def Let_def)
  next
    case (Some r)
    obtain iw s where r: "r = (iw, s)" by (cases r)
    show ?thesis
      using False Some r rasterize_cell [OF assms, of H "glyph_of light t" iw s]
      by (simp add: render_triangle_def footprint_def depth_at_def glyph_of_def Let_def)
  qed
qed

lemma render_triangles_length:
  "length (depth_buffer (fold (render_triangle cam light mvp W H) ts fb)) = length (depth_buffer fb) \<and>
   length (char_buffer (fold (render_triangle cam light mvp W H) ts fb)) = length (char_buffer fb)"
proof (induction ts arbitrary: fb)
  case Nil
  show ?case by simp
next
  case (Cons t ts)
  show ?case
    using Cons [of "render_triangle cam light mvp W H t fb"]
      render_triangle_length [of cam light mvp W H t fb]
    by simp
qed

lemma render_frame_length:
  "length (depth_buffer (render_frame cam light mvp W H ts)) = nat (W * H) \<and>
   length (char_buffer (render_frame cam light mvp W H ts)) = nat (W * H)"
  using render_triangles_length [of cam light mvp W H ts "clear_buffers W H"]
  by (simp add: render_frame_def clear_buffers_def)

lemma clear_buffers_cell:
  "k < nat (W * H) \<Longrightarrow> cell (clear_buffers W H) k = (0, CHR '' '')"
  by (simp add: clear_buffers_def cell_def)

lemma clear_buffers_length:
  "length (depth_buffer (clear_buffers W H)) = nat (W * H) \<and>
   length (char_buffer (clear_buffers W H)) = nat (W * H)"
  by (simp add: clear_buffers_def)

lemma two_triangles:
  assumes A: "footprint cam mvp W H tA x y" and B: "footprint cam mvp W H tB x y"
  shows "cell (render_triangle cam light mvp W H tB (render_triangle cam light mvp W H tA (clear_buffers W H)))
           (nat (y * W + x)) =
         (if depth_at mvp W H tB x y > depth_at mvp W H tA x y
          then (depth_at mvp W H tB x y, glyph_of light tB)
          else (depth_at mvp W H tA x y, glyph_of light tA))"
proof -
  let ?k = "nat (y * W + x)"
  let ?fb0 = "clear_buffers W H"
  let ?fb1 = "render_triangle cam light mvp W H tA ?fb0"
  from A obtain s where "covers W H s x y" by (auto simp: footprint_def split: option.splits)
  then have g: "0 \<le> x" "x < W" "0 \<le> y" "y * W + x < W * H" "0 \<le> y * W + x"
    using covers_in_grid by blast+
  then have k: "?k < nat (W * H)" by linarith
  have l0: "?k < length (depth_buffer ?fb0)" "?k < length (char_buffer ?fb0)"
    using k clear_buffers_length by simp_all
  have l1: "?k < length (depth_buffer ?fb1)" "?k < length (char_buffer ?fb1)"
    using l0 render_triangle_length by simp_all
  have c1: "cell ?fb1 ?k = (depth_at mvp W H tA x y, glyph_of light tA)"
    using render_triangle_cell [OF g(1-3) refl l0, of cam light mvp H tA] A
      footprint_depth_pos [OF A] clear_buffers_cell [OF k] by simp
  show ?thesis
    using render_triangle_cell [OF g(1-3) refl l1, of cam light mvp H tB] B c1 by simp
qed

section \<open>The small scene, evaluated\<close>

lemmas raster_defs = covers_def bbox_minX_def bbox_maxX_def bbox_minY_def bbox_maxY_def
  min3_def max3_def static_cast_int_def std_ceil_def inside_def cell_bc_def barycentric_def
  interpolated_inv_w_def

lemma near_not_culled: "\<not> back_face_culled scene_cam scene_near"
  by (simp add: back_face_culled_def face_normal_def view_vector_def scene_cam_def scene_near_def vec_defs Let_def)

lemma far_not_culled: "\<not> back_face_culled scene_cam scene_far"
  by (simp add: back_face_culled_def face_normal_def view_vector_def scene_cam_def scene_far_def vec_defs Let_def)

lemma near_proj: "project_vertices scene_mvp 4 4 scene_near =
  Some ((1, 1, 1), (\<lparr>vx = 2, vy = 2, vz = 1\<rparr>, \<lparr>vx = 2, vy = 0, vz = 1\<rparr>, \<lparr>vx = 4, vy = 2, vz = 1\<rparr>))"
  by (simp add: project_vertices_def project_vertex_def Mat4_transform_def scene_mvp_def scene_near_def Let_def)

lemma far_proj: "project_vertices scene_mvp 4 4 scene_far =
  Some ((1/2, 1/2, 1/5), (\<lparr>vx = 2, vy = 2, vz = 1\<rparr>, \<lparr>vx = 2, vy = 0, vz = 1\<rparr>, \<lparr>vx = 18/5, vy = 2, vz = 1\<rparr>))"
  by (simp add: project_vertices_def project_vertex_def Mat4_transform_def scene_mvp_def scene_far_def Let_def)

lemma near_fp: "footprint scene_cam scene_mvp 4 4 scene_near 2 1"
  by (simp add: footprint_def near_not_culled near_proj raster_defs vec_defs Let_def)

lemma far_fp: "footprint scene_cam scene_mvp 4 4 scene_far 2 1"
  by (simp add: footprint_def far_not_culled far_proj raster_defs vec_defs Let_def)

lemma near_depth: "depth_at scene_mvp 4 4 scene_near 2 1 = 1"
  by (simp add: depth_at_def near_proj raster_defs vec_defs Let_def)

lemma far_depth: "depth_at scene_mvp 4 4 scene_far 2 1 = 13/32"
  by (simp add: depth_at_def far_proj raster_defs vec_defs Let_def)

lemma near_glyph: "glyph_of scene_light scene_near = CHR ''@''"
  by (simp add: glyph_of_def flat_intensity_def get_ascii_char_def ascii_chars_def face_normal_def
     scene_light_def scene_near_def static_cast_int_def vec_defs Let_def)

lemma far_glyph: "glyph_of scene_light scene_far = CHR ''#''"
  by (simp add: glyph_of_def flat_intensity_def get_ascii_char_def ascii_chars_def face_normal_def
     scene_light_def scene_far_def static_cast_int_def vec_defs Let_def)

section \<open>Further facts for the claims\<close>

lemma barycentric_degenerate:
  assumes "\<bar>barycentric_denom a b c\<bar> < 1 / 100000"
  shows "barycentric p a b c = \<lparr>vx = - 1, vy = - 1, vz = - 1\<rparr>"
  using assms by (simp add: barycentric_def barycentric_denom_def Let_def)

lemma degenerate_not_inside:
  assumes "\<bar>barycentric_denom s0 s1 s2\<bar> < 1 / 100000"
  shows "\<not> inside (s0, s1, s2) x y"
  by (simp add: inside_def cell_bc_def Let_def barycentric_degenerate [OF assms])

lemma pixels_outside:
  assumes "\<And>y x. (y, x) \<in> set cs \<Longrightarrow> \<not> inside s x y"
  shows "pixels W g iw s cs fb = fb"
  using assms
proof (induction cs)
  case Nil
  show ?case by (simp add: pixels_def)
next
  case (Cons c cs)
  obtain y x where c: "c = (y, x)" by (cases c)
  have "\<not> inside s x y" using Cons.prems [of y x] c by simp
  then have "shade_pixel W g iw s y x fb = fb" by (simp add: shade_pixel_def)
  then have "pixels W g iw s (c # cs) fb = pixels W g iw s cs fb" by (simp add: pixels_def c)
  then show ?case using Cons by simp
qed

lemma rasterize_degenerate:
  assumes "\<bar>barycentric_denom s0 s1 s2\<bar> < 1 / 100000"
  shows "rasterize W H g iw (s0, s1, s2) fb = fb"
  unfolding rasterize_pixels by (rule pixels_outside) (rule degenerate_not_inside [OF assms])

lemma project_vertex_behind:
  "clip_w mvp v \<le> 0 \<Longrightarrow> project_vertex mvp W H v = None"
  by (simp add: project_vertex_def clip_w_def Let_def)

lemma project_vertices_behind:
  assumes "clip_w mvp v0 \<le> 0 \<or> clip_w mvp v1 \<le> 0 \<or> clip_w mvp v2 \<le> 0"
  shows "project_vertices mvp W H (v0, v1, v2) = None"
  using assms project_vertex_behind [of mvp _ W H]
  by (auto simp: project_vertices_def split: option.splits)

lemma near_renders:
  "cell (render_triangle scene_cam scene_light scene_mvp 4 4 scene_near (clear_buffers 4 4)) 6
   = (1, CHR ''@'')"
proof -
  have "cell (render_triangle scene_cam scene_light scene_mvp 4 4 scene_near (clear_buffers 4 4))
          (nat (1 * 4 + 2)) =
        (if footprint scene_cam scene_mvp 4 4 scene_near 2 1 \<and>
            depth_at scene_mvp 4 4 scene_near 2 1 > fst (cell (clear_buffers 4 4) (nat (1 * 4 + 2)))
         then (depth_at scene_mvp 4 4 scene_near 2 1, glyph_of scene_light scene_near)
         else cell (clear_buffers 4 4) (nat (1 * 4 + 2)))"
    by (rule render_triangle_cell) (simp_all add: clear_buffers_def)
  then show ?thesis
    by (simp add: near_fp near_depth near_glyph clear_buffers_cell)
qed

lemma near_screen_proj:
  "project_vertices scene_mvp 4 4 scene_near = Some ((1, 1, 1), scene_near_screen)"
  by (simp add: near_proj scene_near_screen_def)

lemma near_screen_covers: "covers 4 4 scene_near_screen 2 1"
  using near_fp by (simp add: footprint_def near_screen_proj)

lemma near_screen_depth: "interpolated_inv_w (1, 1, 1) scene_near_screen 2 1 = 1"
  using near_depth by (simp add: depth_at_def near_screen_proj)

lemma near_screen_bbox:
  "bbox_minX scene_near_screen = 2 \<and> bbox_maxX 4 scene_near_screen = 3 \<and>
   bbox_minY scene_near_screen = 0 \<and> bbox_maxY 4 scene_near_screen = 2"
  by (simp add: scene_near_screen_def bbox_minX_def bbox_maxX_def bbox_minY_def bbox_maxY_def
      min3_def max3_def static_cast_int_def std_ceil_def)

lemma tiny_proj:
  "project_vertices scene_mvp 4 4 scene_tiny = Some ((1, 1, 1), scene_tiny_screen)"
  by (simp add: project_vertices_def project_vertex_def Mat4_transform_def scene_mvp_def
      scene_tiny_def scene_tiny_screen_def Let_def)

lemma tiny_not_culled: "\<not> back_face_culled scene_cam scene_tiny"
  by (simp add: scene_tiny_def back_face_culled_iff scene_cam_def Vec3_subtract_def
      Vec3_cross_def Vec3_dot_def)

lemma tiny_denom:
  "barycentric_denom \<lparr>vx = 2, vy = 2, vz = 1\<rparr> \<lparr>vx = 2, vy = 199 / 100, vz = 1\<rparr>
     \<lparr>vx = 201 / 100, vy = 2, vz = 1\<rparr> = 1 / 100000000"
  by (simp add: barycentric_denom_def Vec3_subtract_def Vec3_dot_def Let_def)

lemma behind_not_culled: "\<not> back_face_culled scene_cam scene_behind"
  by (simp add: scene_behind_def back_face_culled_iff scene_cam_def Vec3_subtract_def
      Vec3_cross_def Vec3_dot_def)

lemma behind_clip_w: "clip_w scene_mvp \<lparr>vx = 1, vy = 0, vz = - 1\<rparr> = - 1"
  by (simp add: clip_w_def Mat4_transform_def scene_mvp_def)

lemma back_culled: "back_face_culled scene_cam scene_back"
  by (simp add: scene_back_def back_face_culled_iff scene_cam_def Vec3_subtract_def
      Vec3_cross_def Vec3_dot_def)

lemma dark_not_culled: "\<not> back_face_culled camera_pos dark_triangle"
  by (simp add: dark_triangle_def back_face_culled_iff camera_pos_def Vec3_subtract_def
      Vec3_cross_def Vec3_dot_def)

lemma dark_intensity: "flat_intensity light_direction dark_triangle = 1 / 10"
  by (simp add: flat_intensity_def light_direction_value face_normal_def dark_triangle_def
      vec_defs Let_def)

section \<open>The claims\<close>

subsection \<open>C1: back-face culling\<close>

text \<open>
  Claim C1, as the code has it. The face normal is \<open>normalize(cross(v1 - v0, v2 - v0))\<close>
  and the view vector is \<open>normalize(v0 - camera)\<close>: it runs from the camera toward the
  first vertex. The cull test discards the triangle exactly when the dot product of the
  two is \<open>\<ge> 0\<close>, which in exact arithmetic is the case exactly when
  \<open>dot(cross(v1 - v0, v2 - v0), v0 - camera) \<ge> 0\<close>, and a discarded triangle leaves
  the depth grid and the glyph grid as they were.
\<close>

theorem back_face_culling:
  "face_normal (v0, v1, v2) = Vec3_normalize (Vec3_cross (Vec3_subtract v1 v0) (Vec3_subtract v2 v0)) \<and>
   view_vector cam (v0, v1, v2) = Vec3_normalize (Vec3_subtract v0 cam) \<and>
   (back_face_culled cam (v0, v1, v2) \<longleftrightarrow>
      0 \<le> Vec3_dot (face_normal (v0, v1, v2)) (view_vector cam (v0, v1, v2))) \<and>
   (back_face_culled cam (v0, v1, v2) \<longleftrightarrow>
      0 \<le> Vec3_dot (Vec3_cross (Vec3_subtract v1 v0) (Vec3_subtract v2 v0)) (Vec3_subtract v0 cam)) \<and>
   (back_face_culled cam (v0, v1, v2) \<longrightarrow>
      render_triangle cam light mvp W H (v0, v1, v2) fb = fb)"
proof -
  have "face_normal (v0, v1, v2) =
        Vec3_normalize (Vec3_cross (Vec3_subtract v1 v0) (Vec3_subtract v2 v0))"
    by (simp add: face_normal_def Let_def)
  moreover have "view_vector cam (v0, v1, v2) = Vec3_normalize (Vec3_subtract v0 cam)"
    by (simp add: view_vector_def)
  moreover have "back_face_culled cam (v0, v1, v2) \<longleftrightarrow>
      0 \<le> Vec3_dot (face_normal (v0, v1, v2)) (view_vector cam (v0, v1, v2))"
    by (simp add: back_face_culled_def)
  moreover note back_face_culled_iff [of cam v0 v1 v2]
  moreover have "back_face_culled cam (v0, v1, v2) \<longrightarrow>
      render_triangle cam light mvp W H (v0, v1, v2) fb = fb"
    by (simp add: render_triangle_def)
  ultimately show ?thesis by blast
qed

text \<open>\<open>scene_back\<close> is wound away from the camera: it is discarded and nothing is written.\<close>

theorem back_face_culling_witness:
  "back_face_culled scene_cam scene_back \<and>
   render_triangle scene_cam scene_light scene_mvp 4 4 scene_back (clear_buffers 4 4)
     = clear_buffers 4 4"
  using back_culled
    back_face_culling [of "\<lparr>vx = 0, vy = 0, vz = 1\<rparr>" "\<lparr>vx = 1, vy = 0, vz = 1\<rparr>"
      "\<lparr>vx = 0, vy = 1, vz = 1\<rparr>" scene_cam scene_light scene_mvp 4 4 "clear_buffers 4 4"]
  by (simp add: scene_back_def)

text \<open>
  With the view vector of the claim (camera position minus first vertex) the test
  \<open>dot \<ge> 0\<close> holds for \<open>scene_near\<close>, which faces the camera; the code does not
  discard it but writes its glyph to the cell of column 2, row 1.
\<close>

theorem back_face_culling_counterexample:
  "spec_back_face_culled scene_cam scene_near \<and>
   char_buffer (clear_buffers 4 4) ! 6 = CHR '' '' \<and>
   char_buffer (render_triangle scene_cam scene_light scene_mvp 4 4 scene_near (clear_buffers 4 4)) ! 6
     = CHR ''@''"
proof -
  have "spec_back_face_culled scene_cam scene_near"
    by (simp add: spec_back_face_culled_def spec_view_vector_def face_normal_def scene_cam_def
        scene_near_def vec_defs Let_def)
  moreover have "char_buffer (clear_buffers 4 4) ! 6 = CHR '' ''"
    by (simp add: clear_buffers_def)
  moreover have "char_buffer (render_triangle scene_cam scene_light scene_mvp 4 4 scene_near
      (clear_buffers 4 4)) ! 6 = CHR ''@''"
    using near_renders by (simp add: cell_def)
  ultimately show ?thesis by simp
qed

subsection \<open>C2: the depth test is strict\<close>

text \<open>
  Claim C2. For a cell that the loops visit and that passes the inside test, the depth
  and the glyph stored after the triangle is rasterized are the interpolated \<open>invW\<close> and
  the glyph of the triangle if the interpolated \<open>invW\<close> is strictly greater than the
  depth stored before, and are the values stored before otherwise; so on a tie both
  grids keep their values at that cell.
\<close>

theorem depth_test_strict:
  assumes "covers W H s x y"
    and "length (depth_buffer fb) = nat (W * H)"
    and "length (char_buffer fb) = nat (W * H)"
  shows "depth_buffer (rasterize W H g iw s fb) ! nat (y * W + x) =
           (if interpolated_inv_w iw s x y > depth_buffer fb ! nat (y * W + x)
            then interpolated_inv_w iw s x y
            else depth_buffer fb ! nat (y * W + x)) \<and>
         char_buffer (rasterize W H g iw s fb) ! nat (y * W + x) =
           (if interpolated_inv_w iw s x y > depth_buffer fb ! nat (y * W + x)
            then g
            else char_buffer fb ! nat (y * W + x))"
proof -
  have grid: "0 \<le> x" "x < W" "0 \<le> y" "0 \<le> y * W + x" "y * W + x < W * H"
    using covers_in_grid [OF assms(1)] by simp_all
  then have k: "nat (y * W + x) < nat (W * H)" by linarith
  have "cell (rasterize W H g iw s fb) (nat (y * W + x)) =
        (if covers W H s x y \<and> interpolated_inv_w iw s x y > fst (cell fb (nat (y * W + x)))
         then (interpolated_inv_w iw s x y, g) else cell fb (nat (y * W + x)))"
    using grid(1-3) k assms(2,3) by (intro rasterize_cell) simp_all
  then show ?thesis using assms(1) by (simp add: cell_def split: if_splits)
qed

text \<open>
  On the cleared grid the triangle of depth 1 is written; on a grid that already holds
  depth 1 everywhere the tie leaves the glyph \<open>#\<close> in place.
\<close>

theorem depth_test_strict_witness:
  "covers 4 4 scene_near_screen 2 1 \<and>
   depth_buffer (rasterize 4 4 CHR ''@'' (1, 1, 1) scene_near_screen (clear_buffers 4 4)) ! 6 = 1 \<and>
   char_buffer (rasterize 4 4 CHR ''@'' (1, 1, 1) scene_near_screen (clear_buffers 4 4)) ! 6 = CHR ''@'' \<and>
   depth_buffer (rasterize 4 4 CHR ''@'' (1, 1, 1) scene_near_screen
     \<lparr>depth_buffer = replicate 16 1, char_buffer = replicate 16 CHR ''#''\<rparr>) ! 6 = 1 \<and>
   char_buffer (rasterize 4 4 CHR ''@'' (1, 1, 1) scene_near_screen
     \<lparr>depth_buffer = replicate 16 1, char_buffer = replicate 16 CHR ''#''\<rparr>) ! 6 = CHR ''#''"
  using near_screen_covers
    depth_test_strict [of 4 4 scene_near_screen 2 1 "clear_buffers 4 4" "CHR ''@''" "(1, 1, 1)"]
    depth_test_strict [of 4 4 scene_near_screen 2 1
      "\<lparr>depth_buffer = replicate 16 1, char_buffer = replicate 16 CHR ''#''\<rparr>" "CHR ''@''" "(1, 1, 1)"]
  by (simp add: near_screen_depth clear_buffers_def)

subsection \<open>C3: the result does not depend on the draw order\<close>

text \<open>
  Claim C3. If a cell lies in the rasterized footprint of two triangles and their
  interpolated \<open>invW\<close> differ there, then rendering the two into cleared buffers gives
  the same glyph at that cell in either order: the glyph of the triangle whose
  interpolated \<open>invW\<close> is the larger.
\<close>

theorem depth_order_independent:
  assumes "footprint cam mvp W H tA x y"
    and "footprint cam mvp W H tB x y"
    and "depth_at mvp W H tA x y \<noteq> depth_at mvp W H tB x y"
  shows "char_buffer (render_frame cam light mvp W H [tA, tB]) ! nat (y * W + x) =
           (if depth_at mvp W H tA x y > depth_at mvp W H tB x y
            then glyph_of light tA else glyph_of light tB) \<and>
         char_buffer (render_frame cam light mvp W H [tB, tA]) ! nat (y * W + x) =
           (if depth_at mvp W H tA x y > depth_at mvp W H tB x y
            then glyph_of light tA else glyph_of light tB)"
proof -
  have ab: "cell (render_frame cam light mvp W H [tA, tB]) (nat (y * W + x)) =
        (if depth_at mvp W H tB x y > depth_at mvp W H tA x y
         then (depth_at mvp W H tB x y, glyph_of light tB)
         else (depth_at mvp W H tA x y, glyph_of light tA))"
    using two_triangles [OF assms(1) assms(2), of light] by (simp add: render_frame_def)
  have ba: "cell (render_frame cam light mvp W H [tB, tA]) (nat (y * W + x)) =
        (if depth_at mvp W H tA x y > depth_at mvp W H tB x y
         then (depth_at mvp W H tA x y, glyph_of light tA)
         else (depth_at mvp W H tB x y, glyph_of light tB))"
    using two_triangles [OF assms(2) assms(1), of light] by (simp add: render_frame_def)
  show ?thesis
  proof (cases "depth_at mvp W H tA x y > depth_at mvp W H tB x y")
    case True
    then show ?thesis using ab ba by (simp add: cell_def)
  next
    case False
    then have "depth_at mvp W H tB x y > depth_at mvp W H tA x y" using assms(3) by simp
    then show ?thesis using ab ba False by (simp add: cell_def)
  qed
qed

text \<open>
  \<open>scene_near\<close> (glyph \<open>@\<close>, \<open>invW = 1\<close>) and \<open>scene_far\<close> (glyph \<open>#\<close>,
  \<open>invW = 13/32\<close>) both reach the cell of column 2, row 1; the nearer glyph stays in
  either order.
\<close>

theorem depth_order_independent_witness:
  "footprint scene_cam scene_mvp 4 4 scene_near 2 1 \<and>
   footprint scene_cam scene_mvp 4 4 scene_far 2 1 \<and>
   depth_at scene_mvp 4 4 scene_near 2 1 \<noteq> depth_at scene_mvp 4 4 scene_far 2 1 \<and>
   glyph_of scene_light scene_far = CHR ''#'' \<and>
   char_buffer (render_frame scene_cam scene_light scene_mvp 4 4 [scene_near, scene_far]) ! 6 = CHR ''@'' \<and>
   char_buffer (render_frame scene_cam scene_light scene_mvp 4 4 [scene_far, scene_near]) ! 6 = CHR ''@''"
  using near_fp far_fp
    depth_order_independent [of scene_cam scene_mvp 4 4 scene_near 2 1 scene_far scene_light]
  by (simp add: near_depth far_depth near_glyph far_glyph)

subsection \<open>C4: the glyph of an intensity\<close>

text \<open>
  Claim C4, as the code has it. The glyph is the character of the ramp
  \<open>" .:-=+*#%@"\<close> at the index obtained by truncating \<open>intensity * 9\<close> toward zero
  (not by rounding it) and clamping the result to \<open>[0, 9]\<close>: index 0 below \<open>1/9\<close>,
  index 9 from 1 on, and the integer part of \<open>intensity * 9\<close> in between. Intensity 1
  gives the last character \<open>@\<close>.
\<close>

theorem get_ascii_char_truncates:
  "get_ascii_char intensity =
     ascii_chars ! nat (max 0 (min 9 (static_cast_int (intensity * 9)))) \<and>
   get_ascii_char intensity =
     ascii_chars ! (if intensity < 1 / 9 then 0 else if 1 \<le> intensity then 9
                    else nat \<lfloor>intensity * 9\<rfloor>) \<and>
   get_ascii_char 1 = CHR ''@'' \<and>
   last ascii_chars = CHR ''@''"
proof -
  have "get_ascii_char intensity =
        ascii_chars ! nat (max 0 (min 9 (static_cast_int (intensity * 9))))"
    by (simp add: get_ascii_char_def ascii_chars_def Let_def)
  moreover have "get_ascii_char 1 = CHR ''@''"
    by (simp add: get_ascii_char_index ascii_chars_def)
  moreover have "last ascii_chars = CHR ''@''"
    by (simp add: ascii_chars_def)
  ultimately show ?thesis using get_ascii_char_index [of intensity] by simp
qed

text \<open>
  At intensity \<open>1/10\<close> the product is \<open>9/10\<close>: truncation gives index 0, the blank,
  where rounding gives index 1, the dot.
\<close>

theorem get_ascii_char_rounding_counterexample:
  "get_ascii_char (1 / 10) = CHR '' '' \<and> spec_rounded_glyph (1 / 10) = CHR ''.''"
  by (simp add: get_ascii_char_def spec_rounded_glyph_def static_cast_int_def ascii_chars_def
      round_def Let_def)

subsection \<open>C5: the ambient floor\<close>

text \<open>
  Claim C5 at \<open>dark_triangle\<close>, with the camera and the light of \<open>main\<close>. The triangle
  passes the back-face test, its intensity \<open>- 1/3\<close> is raised to the floor \<open>1/10\<close>, and
  the glyph chosen for the floor is the blank.
\<close>

theorem ambient_floor_blank_glyph:
  "\<not> back_face_culled camera_pos dark_triangle \<and>
   Vec3_dot (face_normal dark_triangle) (Vec3_scale light_direction (- 1)) = - 1 / 3 \<and>
   flat_intensity light_direction dark_triangle = 1 / 10 \<and>
   get_ascii_char (flat_intensity light_direction dark_triangle) = CHR '' ''"
proof -
  have "Vec3_dot (face_normal dark_triangle) (Vec3_scale light_direction (- 1)) = - 1 / 3"
    by (simp add: light_direction_value face_normal_def dark_triangle_def vec_defs Let_def)
  moreover have "get_ascii_char (flat_intensity light_direction dark_triangle) = CHR '' ''"
    by (simp add: dark_intensity get_ascii_char_index ascii_chars_def)
  moreover note dark_not_culled dark_intensity
  ultimately show ?thesis by blast
qed

subsection \<open>C6: a vertex behind the camera\<close>

text \<open>
  Claim C6. If the clip-space \<open>w\<close> of any of the three vertices is \<open>\<le> 0\<close>, the
  triangle is left: the depth grid and the glyph grid are as they were.
\<close>

theorem behind_camera_discards:
  assumes "clip_w mvp v0 \<le> 0 \<or> clip_w mvp v1 \<le> 0 \<or> clip_w mvp v2 \<le> 0"
  shows "render_triangle cam light mvp W H (v0, v1, v2) fb = fb"
  using project_vertices_behind [OF assms, of W H]
  by (simp add: render_triangle_def Let_def)

text \<open>
  \<open>scene_behind\<close> faces the camera and its first two vertices are in front of it; the
  third has \<open>w = - 1\<close>.
\<close>

theorem behind_camera_discards_witness:
  "\<not> back_face_culled scene_cam scene_behind \<and>
   clip_w scene_mvp \<lparr>vx = 1, vy = 0, vz = - 1\<rparr> \<le> 0 \<and>
   render_triangle scene_cam scene_light scene_mvp 4 4 scene_behind (clear_buffers 4 4)
     = clear_buffers 4 4"
  using behind_not_culled
    behind_camera_discards [of scene_mvp "\<lparr>vx = 0, vy = 0, vz = 1\<rparr>" "\<lparr>vx = 0, vy = 1, vz = 1\<rparr>"
      "\<lparr>vx = 1, vy = 0, vz = - 1\<rparr>" scene_cam scene_light 4 4 "clear_buffers 4 4"]
  by (simp add: behind_clip_w scene_behind_def)

subsection \<open>C8: degenerate triangles\<close>

text \<open>
  Claim C8. If the denominator of \<open>barycentric\<close> for the three screen-space vertices
  has absolute value below \<open>1e-5\<close>, the function returns \<open>(-1, -1, -1)\<close> for every
  query point, no cell passes the inside test, the loops leave both grids as they were,
  and so does the rendering of a triangle with these screen-space vertices.
\<close>

theorem degenerate_triangle_no_coverage:
  assumes "\<bar>barycentric_denom s0 s1 s2\<bar> < 1 / 100000"
  shows "barycentric p s0 s1 s2 = \<lparr>vx = - 1, vy = - 1, vz = - 1\<rparr> \<and>
         \<not> inside (s0, s1, s2) x y \<and>
         rasterize W H g iw (s0, s1, s2) fb = fb \<and>
         (project_vertices mvp W H t = Some (iw, (s0, s1, s2)) \<longrightarrow>
            render_triangle cam light mvp W H t fb = fb)"
proof -
  have "\<And>c. rasterize W H c iw (s0, s1, s2) fb = fb"
    using assms by (rule rasterize_degenerate)
  then have "project_vertices mvp W H t = Some (iw, (s0, s1, s2)) \<longrightarrow>
      render_triangle cam light mvp W H t fb = fb"
    by (simp add: render_triangle_def Let_def)
  then show ?thesis
    using barycentric_degenerate [OF assms, of p] degenerate_not_inside [OF assms, of x y]
      rasterize_degenerate [OF assms, of W H g iw fb]
    by simp
qed

text \<open>
  \<open>scene_tiny\<close> faces the camera and is in front of it; on the screen its denominator
  is \<open>1e-8\<close>, and rendering it writes nothing.
\<close>

theorem degenerate_triangle_no_coverage_witness:
  "\<not> back_face_culled scene_cam scene_tiny \<and>
   project_vertices scene_mvp 4 4 scene_tiny = Some ((1, 1, 1), scene_tiny_screen) \<and>
   \<bar>barycentric_denom \<lparr>vx = 2, vy = 2, vz = 1\<rparr> \<lparr>vx = 2, vy = 199 / 100, vz = 1\<rparr>
      \<lparr>vx = 201 / 100, vy = 2, vz = 1\<rparr>\<bar> < 1 / 100000 \<and>
   barycentric \<lparr>vx = 5 / 2, vy = 3 / 2, vz = 0\<rparr> \<lparr>vx = 2, vy = 2, vz = 1\<rparr>
      \<lparr>vx = 2, vy = 199 / 100, vz = 1\<rparr> \<lparr>vx = 201 / 100, vy = 2, vz = 1\<rparr>
     = \<lparr>vx = - 1, vy = - 1, vz = - 1\<rparr> \<and>
   render_triangle scene_cam scene_light scene_mvp 4 4 scene_tiny (clear_buffers 4 4)
     = clear_buffers 4 4"
  using tiny_not_culled tiny_proj
    degenerate_triangle_no_coverage [of "\<lparr>vx = 2, vy = 2, vz = 1\<rparr>"
      "\<lparr>vx = 2, vy = 199 / 100, vz = 1\<rparr>" "\<lparr>vx = 201 / 100, vy = 2, vz = 1\<rparr>"
      "\<lparr>vx = 5 / 2, vy = 3 / 2, vz = 0\<rparr>" 2 1 4 4 "CHR ''@''" "(1, 1, 1)" "clear_buffers 4 4"
      scene_mvp scene_tiny scene_cam scene_light]
  by (simp add: tiny_denom scene_tiny_screen_def)

subsection \<open>C9: the argument check\<close>

text \<open>
  Claim C9, as the code has it. With fewer than two arguments after the program name
  the program writes the usage message to the error stream and returns 1 before
  anything else; with two or more arguments it goes on with the first two, so extra
  arguments are not rejected.
\<close>

theorem main_args_usage:
  "(length args < 2 \<longrightarrow> main_args prog args = Inl (usage_message prog, 1)) \<and>
   (2 \<le> length args \<longrightarrow> main_args prog args = Inr (args ! 0, args ! 1))"
  by (simp add: main_args_def Let_def)

theorem main_args_usage_witness:
  "length [''model.obj''] < 2 \<and>
   main_args ''ascii'' [''model.obj'']
     = Inl (''Usage: ascii <path_to_obj_file> <path_to_font_file>'' @ [CHR 0x0A], 1) \<and>
   2 \<le> length [''model.obj'', ''font.ttf''] \<and>
   main_args ''ascii'' [''model.obj'', ''font.ttf''] = Inr (''model.obj'', ''font.ttf'')"
  using main_args_usage [of "[''model.obj'']" "''ascii''"]
    main_args_usage [of "[''model.obj'', ''font.ttf'']" "''ascii''"]
  by (simp add: usage_message_def)

text \<open>Three arguments are one more than the two the program reads; it does not stop.\<close>

theorem main_args_extra_counterexample:
  "main_args ''ascii'' [''model.obj'', ''font.ttf'', ''extra''] = Inr (''model.obj'', ''font.ttf'')"
  by (simp add: main_args_def)

subsection \<open>C10: the loops stay inside the grid\<close>

text \<open>
  Claim C10. The bounding box is clamped to \<open>minX \<ge> 0\<close>, \<open>maxX \<le> width - 1\<close>,
  \<open>minY \<ge> 0\<close>, \<open>maxY \<le> height - 1\<close>, and every index \<open>y * width + x\<close> the loops
  use lies in \<open>[0, width * height)\<close>, below the length of both buffers, whatever
  triangles \<open>ts\<close> were rendered into them before in the frame.
\<close>

theorem raster_indices_in_bounds:
  "0 \<le> bbox_minX s \<and> bbox_maxX W s \<le> W - 1 \<and> 0 \<le> bbox_minY s \<and> bbox_maxY H s \<le> H - 1 \<and>
   (\<forall>y \<in> set [bbox_minY s .. bbox_maxY H s]. \<forall>x \<in> set [bbox_minX s .. bbox_maxX W s].
      0 \<le> y * W + x \<and> y * W + x < W * H \<and>
      nat (y * W + x) < length (depth_buffer (render_frame cam light mvp W H ts)) \<and>
      nat (y * W + x) < length (char_buffer (render_frame cam light mvp W H ts)))"
proof -
  have bb: "0 \<le> bbox_minX s" "bbox_maxX W s \<le> W - 1" "0 \<le> bbox_minY s" "bbox_maxY H s \<le> H - 1"
    using bbox_bounds [of s W H] by simp_all
  have "0 \<le> y * W + x \<and> y * W + x < W * H \<and>
        nat (y * W + x) < length (depth_buffer (render_frame cam light mvp W H ts)) \<and>
        nat (y * W + x) < length (char_buffer (render_frame cam light mvp W H ts))"
    if "y \<in> set [bbox_minY s .. bbox_maxY H s]" "x \<in> set [bbox_minX s .. bbox_maxX W s]" for y x
  proof -
    have b: "0 \<le> x" "x \<le> W - 1" "0 \<le> y" "y \<le> H - 1" using that bb by auto
    then have W: "0 < W" by linarith
    have "y * W \<le> (H - 1) * W" using b W by (intro mult_right_mono) simp_all
    then have lt: "y * W + x < W * H" using b by (simp add: algebra_simps)
    have ge: "0 \<le> y * W + x" using b W by simp
    have "nat (y * W + x) < nat (W * H)" using lt ge by linarith
    then show ?thesis using lt ge by (simp add: render_frame_length)
  qed
  then show ?thesis using bb by blast
qed

text \<open>
  For the screen triangle of \<open>scene_near\<close> on the 4 x 4 grid, drawn after
  \<open>scene_far\<close>, the loops run over the rows 0 to 2 and the columns 2 to 3; the cell of
  row 1, column 2 has index 6 of 16.
\<close>

theorem raster_indices_in_bounds_witness:
  "(1 :: int) \<in> set [bbox_minY scene_near_screen .. bbox_maxY 4 scene_near_screen] \<and>
   (2 :: int) \<in> set [bbox_minX scene_near_screen .. bbox_maxX 4 scene_near_screen] \<and>
   bbox_maxX 4 scene_near_screen \<le> 3 \<and>
   nat (1 * 4 + 2) <
     length (depth_buffer (render_frame scene_cam scene_light scene_mvp 4 4 [scene_far]))"
proof -
  have rows: "(1 :: int) \<in> set [bbox_minY scene_near_screen .. bbox_maxY 4 scene_near_screen]"
    and cols: "(2 :: int) \<in> set [bbox_minX scene_near_screen .. bbox_maxX 4 scene_near_screen]"
    by (simp_all add: near_screen_bbox)
  have mx: "bbox_maxX 4 scene_near_screen \<le> 4 - 1"
    and all: "\<forall>y \<in> set [bbox_minY scene_near_screen .. bbox_maxY 4 scene_near_screen].
         \<forall>x \<in> set [bbox_minX scene_near_screen .. bbox_maxX 4 scene_near_screen].
           0 \<le> y * 4 + x \<and> y * 4 + x < 4 * 4 \<and>
           nat (y * 4 + x) <
             length (depth_buffer (render_frame scene_cam scene_light scene_mvp 4 4 [scene_far])) \<and>
           nat (y * 4 + x) <
             length (char_buffer (render_frame scene_cam scene_light scene_mvp 4 4 [scene_far]))"
    using raster_indices_in_bounds [of scene_near_screen 4 4 scene_cam scene_light scene_mvp
        "[scene_far]"]
    by blast+
  have "nat (1 * 4 + 2) <
      length (depth_buffer (render_frame scene_cam scene_light scene_mvp 4 4 [scene_far]))"
    using all rows cols by blast
  moreover have "bbox_maxX 4 scene_near_screen \<le> 3" using mx by simp
  ultimately show ?thesis using rows cols by blast
qed

end
